theory Spec2Isabelle
  imports Main "HOL-Library.Word" "HOL-Library.Sublist"
begin

section \<open>Python strings\<close>

text \<open>
  A Python \<open>str\<close> is modelled as a \<open>string\<close>: a list of characters whose code points are
  below 256. \<open>is_space\<close> is \<open>str.isspace\<close> on that range (it is also what \<open>\s\<close> matches and
  what \<open>strip()\<close> and \<open>split()\<close> remove): TAB to CR, FS to US, space, NEL and NBSP.
\<close>

definition is_space :: "char \<Rightarrow> bool" where
  "is_space c = (let n = (of_char c :: nat) in
     (9 \<le> n \<and> n \<le> 13) \<or> (28 \<le> n \<and> n \<le> 32) \<or> n = 133 \<or> n = 160)"

text \<open>\<open>s.strip()\<close>\<close>

definition py_strip :: "string \<Rightarrow> string" where
  "py_strip s = rev (dropWhile is_space (rev (dropWhile is_space s)))"

text \<open>\<open>s.split()\<close>: the maximal runs of non-whitespace characters, in order. The first
  argument is the word being read.\<close>

fun split_acc :: "string \<Rightarrow> string \<Rightarrow> string list" where
  "split_acc w [] = (if w = [] then [] else [w])"
| "split_acc w (c # cs) =
     (if is_space c then (if w = [] then split_acc [] cs else w # split_acc [] cs)
      else split_acc (w @ [c]) cs)"

definition py_split :: "string \<Rightarrow> string list" where
  "py_split s = split_acc [] s"

text \<open>\<open>sep.join(xs)\<close>\<close>

fun py_join :: "string \<Rightarrow> string list \<Rightarrow> string" where
  "py_join sep [] = []"
| "py_join sep [x] = x"
| "py_join sep (x # y # ys) = x @ sep @ py_join sep (y # ys)"

text \<open>\<open>s[:n]\<close> for a Python integer \<open>n\<close>: a negative bound counts from the end.\<close>

definition py_slice_to :: "int \<Rightarrow> 'a list \<Rightarrow> 'a list" where
  "py_slice_to n xs = (if 0 \<le> n then take (nat n) xs else take (length xs - nat (- n)) xs)"

text \<open>\<open>len(s)\<close> as a Python integer.\<close>

abbreviation len :: "'a list \<Rightarrow> int" where
  "len xs \<equiv> int (length xs)"

section \<open>Sentence splitting\<close>

text \<open>
  \<open>re.split(r'(?<=[.!?])\s+', text)\<close>: the text is cut at every maximal run of whitespace
  whose first character directly follows \<open>.\<close>, \<open>!\<close> or \<open>?\<close>; the run is dropped. The first
  argument is the piece being read; right after a cut it is empty and the character before
  the position is whitespace, at the start of the text there is no character before the
  position, so the look-behind holds exactly when the piece is non-empty and ends in one of
  the three marks.
\<close>

definition is_terminal :: "char \<Rightarrow> bool" where
  "is_terminal c = (c = CHR ''.'' \<or> c = CHR ''!'' \<or> c = CHR ''?'')"

fun skip_space :: "string \<Rightarrow> string" where
  "skip_space [] = []"
| "skip_space (c # cs) = (if is_space c then skip_space cs else c # cs)"

function sentences_acc :: "string \<Rightarrow> string \<Rightarrow> string list" where
  "sentences_acc cur [] = [cur]"
| "sentences_acc cur (c # cs) =
     (if is_space c \<and> cur \<noteq> [] \<and> is_terminal (last cur)
      then cur # sentences_acc [] (skip_space cs)
      else sentences_acc (cur @ [c]) cs)"
  by pat_completeness auto

lemma length_skip_space: "length (skip_space cs) \<le> length cs"
  by (induction cs) auto

termination sentences_acc
  by (relation "measure (\<lambda>(cur, s). length s)")
     (auto simp: le_imp_less_Suc length_skip_space)

definition split_sentences :: "string \<Rightarrow> string list" where
  "split_sentences text = sentences_acc [] text"

section \<open>chunk_text\<close>

text \<open>
  The state of both loops is the pair \<open>(chunks, current_chunk)\<close>. \<open>words_loop\<close> is the inner
  \<open>for word in words\<close>, \<open>sentences_loop\<close> the outer \<open>for sentence in sentences\<close>.
\<close>

fun words_loop :: "int \<Rightarrow> string list \<Rightarrow> string list \<times> string \<Rightarrow> string list \<times> string" where
  "words_loop max_chars [] st = st"
| "words_loop max_chars (word # ws) (chunks, current_chunk) =
     (if len current_chunk + len word + 1 > max_chars
      then (if current_chunk \<noteq> []
            then words_loop max_chars ws (chunks @ [py_strip current_chunk], word)
            else words_loop max_chars ws (chunks @ [py_slice_to max_chars word], current_chunk))
      else words_loop max_chars ws
             (chunks, (if current_chunk \<noteq> [] then current_chunk @ '' '' @ word else word)))"

fun sentences_loop :: "int \<Rightarrow> string list \<Rightarrow> string list \<times> string \<Rightarrow> string list \<times> string" where
  "sentences_loop max_chars [] st = st"
| "sentences_loop max_chars (sentence # ss) (chunks, current_chunk) =
     (if len current_chunk + len sentence + 1 > max_chars
      then (if current_chunk \<noteq> []
            then sentences_loop max_chars ss (chunks @ [py_strip current_chunk], sentence)
            else sentences_loop max_chars ss
                   (words_loop max_chars (py_split sentence) (chunks, current_chunk)))
      else sentences_loop max_chars ss
             (chunks, (if current_chunk \<noteq> [] then current_chunk @ '' '' @ sentence else sentence)))"

definition chunk_text :: "string \<Rightarrow> int \<Rightarrow> string list" where
  "chunk_text text max_chars =
     (if len text \<le> max_chars then [text]
      else (case sentences_loop max_chars (split_sentences text) ([], []) of
              (chunks, current_chunk) \<Rightarrow>
                if current_chunk \<noteq> [] then chunks @ [py_strip current_chunk] else chunks))"

section \<open>merge_audio_chunks\<close>

type_synonym byte = "8 word"
type_synonym bytes = "byte list"

text \<open>\<open>merge_loop\<close> is \<open>for i, chunk in enumerate(audio_chunks)\<close>, with \<open>merged_audio\<close>
  as its last argument.\<close>

fun merge_loop :: "nat \<Rightarrow> bytes list \<Rightarrow> bytes \<Rightarrow> bytes" where
  "merge_loop i [] merged_audio = merged_audio"
| "merge_loop i (chunk # rest) merged_audio =
     (if i = 0 then merge_loop (Suc i) rest chunk
      else if length chunk > 44 then merge_loop (Suc i) rest (merged_audio @ drop 44 chunk)
      else merge_loop (Suc i) rest merged_audio)"

definition merge_audio_chunks :: "bytes list \<Rightarrow> bytes" where
  "merge_audio_chunks audio_chunks =
     (case audio_chunks of
        [] \<Rightarrow> []
      | [x] \<Rightarrow> x
      | _ \<Rightarrow> merge_loop 0 audio_chunks [])"

section \<open>The conversion loop of main\<close>

text \<open>
  \<open>requests.post\<close> is the remote service: it is a parameter of the model, a function from
  the request and the state of the outside world to what the call did (a response, or an
  exception raised by the transport) and the next state of the world.
\<close>

record request =
  url :: string
  authorization :: string
  payload_text :: string

datatype post_outcome =
    Response int bytes string
  | Raised string

text \<open>What the page shows; the chunk number in an error is the \<open>i+1\<close> of the message.\<close>

datatype ui_event =
    Info nat
  | Progress nat nat
  | ErrorApi nat int string
  | ErrorCall nat string
  | Audio bytes
  | Download bytes
  | Success
  | ErrorFailedAll

record conversion =
  audio_chunks :: "bytes list"
  posted :: "request list"
  shown :: "ui_event list"

definition speak_request :: "string \<Rightarrow> string \<Rightarrow> string \<Rightarrow> request" where
  "speak_request voice_model api_key chunk =
     \<lparr> url = ''https://api.deepgram.com/v1/speak?model='' @ voice_model,
       authorization = ''Token '' @ api_key,
       payload_text = chunk \<rparr>"

text \<open>\<open>for i, chunk in enumerate(text_chunks)\<close>; both \<open>break\<close>s end the recursion.\<close>

fun synth_loop ::
  "(request \<Rightarrow> 'w \<Rightarrow> post_outcome \<times> 'w) \<Rightarrow> string \<Rightarrow> string \<Rightarrow> nat \<Rightarrow> nat \<Rightarrow> string list
     \<Rightarrow> conversion \<times> 'w \<Rightarrow> conversion \<times> 'w" where
  "synth_loop post voice_model api_key n_total i [] st = st"
| "synth_loop post voice_model api_key n_total i (chunk # rest) (c, w) =
     (let rq = speak_request voice_model api_key chunk;
          c1 = c\<lparr>posted := posted c @ [rq]\<rparr>
      in case post rq w of
           (Response status_code content body, w') \<Rightarrow>
             if status_code = 200
             then synth_loop post voice_model api_key n_total (Suc i) rest
                    (c1\<lparr>audio_chunks := audio_chunks c1 @ [content],
                        shown := shown c1 @ [Progress (i + 1) n_total]\<rparr>, w')
             else (c1\<lparr>shown := shown c1 @ [ErrorApi (i + 1) status_code body]\<rparr>, w')
         | (Raised e, w') \<Rightarrow> (c1\<lparr>shown := shown c1 @ [ErrorCall (i + 1) e]\<rparr>, w'))"

text \<open>Lines 290 to 340 of main: the hint, the loop, and the merge or the failure.\<close>

definition synthesize_chunks ::
  "(request \<Rightarrow> 'w \<Rightarrow> post_outcome \<times> 'w) \<Rightarrow> string \<Rightarrow> string \<Rightarrow> string list \<Rightarrow> 'w
     \<Rightarrow> conversion \<times> 'w" where
  "synthesize_chunks post voice_model api_key text_chunks w =
     (let c0 = \<lparr> audio_chunks = [], posted = [],
                 shown = (if length text_chunks > 1 then [Info (length text_chunks)] else []) \<rparr>
      in case synth_loop post voice_model api_key (length text_chunks) 0 text_chunks (c0, w) of
           (c, w') \<Rightarrow>
             if length (audio_chunks c) = length text_chunks
             then (let audio_data = merge_audio_chunks (audio_chunks c)
                   in (c\<lparr>shown := shown c @ [Audio audio_data, Download audio_data, Success]\<rparr>, w'))
             else (c\<lparr>shown := shown c @ [ErrorFailedAll]\<rparr>, w'))"

text \<open>What a run produced: the audio handed to the player, and the chunk numbers of the
  per-chunk errors.\<close>

fun audio_of :: "ui_event list \<Rightarrow> bytes list" where
  "audio_of [] = []"
| "audio_of (Audio a # es) = a # audio_of es"
| "audio_of (Download a # es) = a # audio_of es"
| "audio_of (e # es) = audio_of es"

fun failed_chunks :: "ui_event list \<Rightarrow> nat list" where
  "failed_chunks [] = []"
| "failed_chunks (ErrorApi n s b # es) = n # failed_chunks es"
| "failed_chunks (ErrorCall n e # es) = n # failed_chunks es"
| "failed_chunks (e # es) = failed_chunks es"


text \<open>
  Observers of a run, used to state what the loop did: \<open>replies post rqs w\<close> are the
  outcomes the service gives to the requests \<open>rqs\<close> made one after the other from world
  \<open>w\<close>; \<open>succeeded\<close> is the test \<open>status_code == 200\<close>; \<open>calls_made k chunks\<close> is the
  number of requests posted when the first \<open>k\<close> chunks succeeded (all of them, or the
  \<open>k\<close> successes and the failing call).
\<close>

fun replies :: "(request \<Rightarrow> 'w \<Rightarrow> post_outcome \<times> 'w) \<Rightarrow> request list \<Rightarrow> 'w \<Rightarrow> post_outcome list" where
  "replies post [] w = []"
| "replies post (r # rs) w = (case post r w of (out, w') \<Rightarrow> out # replies post rs w')"

fun succeeded :: "post_outcome \<Rightarrow> bool" where
  "succeeded (Response status_code content body) = (status_code = 200)"
| "succeeded (Raised e) = False"

fun content_of :: "post_outcome \<Rightarrow> bytes" where
  "content_of (Response status_code content body) = content"
| "content_of (Raised e) = []"

definition calls_made :: "nat \<Rightarrow> 'a list \<Rightarrow> nat" where
  "calls_made k chunks = (if k = length chunks then k else Suc k)"

text \<open>A service that answers every call but its second, which times out; its world is
  the number of calls made so far.\<close>

definition flaky_post :: "request \<Rightarrow> nat \<Rightarrow> post_outcome \<times> nat" where
  "flaky_post rq w =
     (if w = 1 then (Raised ''timeout'', Suc w) else (Response 200 [of_nat w] [], Suc w))"


section \<open>Regular expressions\<close>

text \<open>
  The part of Python's \<open>re\<close> that app.py uses, as a backtracking matcher: a pattern applied
  to a position gives the list of its matches in the order in which \<open>re\<close> tries them, so the
  head of the list is the match that \<open>re\<close> reports. Strings are lists of 8-bit characters,
  read as the code points below 256; the character classes \<open>\s\<close>, \<open>\w\<close> and \<open>\d\<close> are
  those of \<open>str\<close> patterns on that range.
\<close>

definition in_range :: "nat \<Rightarrow> nat \<Rightarrow> char \<Rightarrow> bool" where
  "in_range lo hi c = (lo \<le> of_char c \<and> (of_char c :: nat) \<le> hi)"

definition is_digit :: "char \<Rightarrow> bool" where
  "is_digit c = in_range 48 57 c"

definition is_word_char :: "char \<Rightarrow> bool" where
  "is_word_char c =
     (in_range 48 57 c \<or> in_range 65 90 c \<or> c = CHR ''_'' \<or> in_range 97 122 c \<or>
      in_range 170 170 c \<or> in_range 178 179 c \<or> in_range 181 181 c \<or> in_range 185 186 c \<or>
      in_range 188 190 c \<or> in_range 192 214 c \<or> in_range 216 246 c \<or> in_range 248 255 c)"

text \<open>
  \<open>str.lower\<close> and \<open>str.upper\<close> on one character below 256: the letters \<open>A\<close> to \<open>Z\<close> and
  \<open>0xC0\<close> to \<open>0xDE\<close> (but \<open>0xD7\<close>) and their lower-case forms are 32 apart, which is the
  sixth bit of the character.
\<close>

definition py_lower_char :: "char \<Rightarrow> char" where
  "py_lower_char c =
     (if in_range 65 90 c \<or> in_range 192 214 c \<or> in_range 216 222 c
      then (case c of Char b0 b1 b2 b3 b4 b5 b6 b7 \<Rightarrow> Char b0 b1 b2 b3 b4 True b6 b7) else c)"

definition py_upper_char :: "char \<Rightarrow> char" where
  "py_upper_char c =
     (if in_range 97 122 c \<or> in_range 224 246 c \<or> in_range 248 254 c
      then (case c of Char b0 b1 b2 b3 b4 b5 b6 b7 \<Rightarrow> Char b0 b1 b2 b3 b4 False b6 b7) else c)"

datatype cclass =
    CChar char
  | CRange char char
  | COneOf string
  | CNotChar char
  | CSpace
  | CWord
  | CDigit
  | CAny

fun class_has :: "bool \<Rightarrow> cclass \<Rightarrow> char \<Rightarrow> bool" where
  "class_has ic (CChar c) x = (if ic then py_lower_char x = py_lower_char c else x = c)"
| "class_has ic (CRange lo hi) x =
     (in_range (of_char lo) (of_char hi) x \<or>
      (ic \<and> (in_range (of_char lo) (of_char hi) (py_lower_char x) \<or>
             in_range (of_char lo) (of_char hi) (py_upper_char x))))"
| "class_has ic (COneOf cs) x = (x \<in> set cs)"
| "class_has ic (CNotChar c) x = (x \<noteq> c)"
| "class_has ic CSpace x = is_space x"
| "class_has ic CWord x = is_word_char x"
| "class_has ic CDigit x = is_digit x"
| "class_has ic CAny x = True"

datatype regex =
    Eps
  | Chr cclass
  | Seq regex regex
  | Alt regex regex
  | Star regex
  | Group nat regex
  | Bol
  | Eol
  | WordB
  | NotBehind char
  | Ahead regex

record mstate =
  behind :: "char option"
  ahead :: string
  groups :: "(nat \<times> string) list"

fun star_from :: "nat \<Rightarrow> (mstate \<Rightarrow> mstate list) \<Rightarrow> mstate \<Rightarrow> mstate list" where
  "star_from 0 step st = [st]"
| "star_from (Suc n) step st =
     concat (map (star_from n step)
               (filter (\<lambda>st'. length (ahead st') < length (ahead st)) (step st))) @ [st]"

definition at_word :: "char option \<Rightarrow> bool" where
  "at_word c = (case c of None \<Rightarrow> False | Some x \<Rightarrow> is_word_char x)"

definition next_char :: "string \<Rightarrow> char option" where
  "next_char s = (case s of [] \<Rightarrow> None | c # cs \<Rightarrow> Some c)"

primrec rmatch :: "regex \<Rightarrow> bool \<Rightarrow> mstate \<Rightarrow> mstate list" where
  "rmatch Eps ic st = [st]"
| "rmatch (Chr k) ic st =
     (case ahead st of
        [] \<Rightarrow> []
      | c # cs \<Rightarrow> if class_has ic k c then [st\<lparr>behind := Some c, ahead := cs\<rparr>] else [])"
| "rmatch (Seq a b) ic st = concat (map (rmatch b ic) (rmatch a ic st))"
| "rmatch (Alt a b) ic st = rmatch a ic st @ rmatch b ic st"
| "rmatch (Star a) ic st = star_from (length (ahead st)) (rmatch a ic) st"
| "rmatch (Group n a) ic st =
     map (\<lambda>st'. st'\<lparr>groups := (n, take (length (ahead st) - length (ahead st')) (ahead st)) # groups st'\<rparr>)
         (rmatch a ic st)"
| "rmatch Bol ic st = (if behind st = None then [st] else [])"
| "rmatch Eol ic st = (if ahead st = [] \<or> ahead st = [CHR 0x0A] then [st] else [])"
| "rmatch WordB ic st = (if at_word (behind st) \<noteq> at_word (next_char (ahead st)) then [st] else [])"
| "rmatch (NotBehind c) ic st = (if behind st = Some c then [] else [st])"
| "rmatch (Ahead a) ic st = (if rmatch a ic st = [] then [] else [st])"

definition lit :: "string \<Rightarrow> regex" where
  "lit s = foldr (\<lambda>c r. Seq (Chr (CChar c)) r) s Eps"

definition seqs :: "regex list \<Rightarrow> regex" where
  "seqs rs = foldr Seq rs Eps"

definition alts :: "string list \<Rightarrow> regex" where
  "alts ws = foldr (\<lambda>w r. Alt (lit w) r) (butlast ws) (lit (last ws))"

definition many1 :: "regex \<Rightarrow> regex" where
  "many1 a = Seq a (Star a)"

datatype piece = Text string | Ref nat

definition group :: "mstate \<Rightarrow> nat \<Rightarrow> string" where
  "group m n = (case map_of (groups m) n of None \<Rightarrow> [] | Some s \<Rightarrow> s)"

fun expand :: "piece list \<Rightarrow> mstate \<Rightarrow> string" where
  "expand [] m = []"
| "expand (Text s # ps) m = s @ expand ps m"
| "expand (Ref n # ps) m = group m n @ expand ps m"

definition match_at :: "regex \<Rightarrow> bool \<Rightarrow> char option \<Rightarrow> string \<Rightarrow> mstate option" where
  "match_at r ic prev s =
     (case rmatch r ic \<lparr>behind = prev, ahead = s, groups = []\<rparr> of
        [] \<Rightarrow> None
      | m # ms \<Rightarrow> Some m)"

function sub_from :: "regex \<Rightarrow> bool \<Rightarrow> piece list \<Rightarrow> char option \<Rightarrow> string \<Rightarrow> string" where
  "sub_from r ic repl prev [] =
     (case match_at r ic prev [] of None \<Rightarrow> [] | Some m \<Rightarrow> expand repl m)"
| "sub_from r ic repl prev (c # cs) =
     (case match_at r ic prev (c # cs) of
        None \<Rightarrow> c # sub_from r ic repl (Some c) cs
      | Some m \<Rightarrow>
          if length (ahead m) < length (c # cs)
          then expand repl m @ sub_from r ic repl (behind m) (ahead m)
          else expand repl m @ c # sub_from r ic repl (Some c) cs)"
  by pat_completeness auto
termination
  by (relation "measure (\<lambda>(r, ic, repl, prev, s). length s)") auto

definition re_sub :: "regex \<Rightarrow> bool \<Rightarrow> piece list \<Rightarrow> string \<Rightarrow> string" where
  "re_sub r ic repl s = sub_from r ic repl None s"

fun search_from :: "regex \<Rightarrow> bool \<Rightarrow> char option \<Rightarrow> string \<Rightarrow> bool" where
  "search_from r ic prev [] = (match_at r ic prev [] \<noteq> None)"
| "search_from r ic prev (c # cs) =
     (match_at r ic prev (c # cs) \<noteq> None \<or> search_from r ic (Some c) cs)"

definition re_search :: "regex \<Rightarrow> bool \<Rightarrow> string \<Rightarrow> bool" where
  "re_search r ic s = search_from r ic None s"

definition re_match :: "regex \<Rightarrow> bool \<Rightarrow> string \<Rightarrow> mstate option" where
  "re_match r ic s = match_at r ic None s"


definition py_lower :: "string \<Rightarrow> string" where
  "py_lower s = map py_lower_char s"

text \<open>\<open>text.split('\n\n')\<close>\<close>

fun split_paragraphs :: "string \<Rightarrow> string \<Rightarrow> string list" where
  "split_paragraphs cur [] = [cur]"
| "split_paragraphs cur [a] = [cur @ [a]]"
| "split_paragraphs cur (a # b # cs) =
     (if a = CHR 0x0A \<and> b = CHR 0x0A then cur # split_paragraphs [] cs
      else split_paragraphs (cur @ [a]) (b # cs))"

section \<open>The patterns\<close>

definition space1 :: regex where "space1 = many1 (Chr CSpace)"
definition word1 :: regex where "word1 = many1 (Chr CWord)"

text \<open>\<open>\b(hi|hello|hey|dear|mr|mrs|ms|dr)\s+([A-Z][a-z]+)\<close>\<close>
definition re_direct_address :: regex where
  "re_direct_address =
     seqs [WordB,
           Group 1 (alts [''hi'', ''hello'', ''hey'', ''dear'', ''mr'', ''mrs'', ''ms'', ''dr'']),
           space1,
           Group 2 (Seq (Chr (CRange CHR ''A'' CHR ''Z'')) (many1 (Chr (CRange CHR ''a'' CHR ''z''))))]"

text \<open>\<open>(\w+)\s+(and|or)\s+(\w+)\<close>\<close>
definition re_conjunction :: regex where
  "re_conjunction =
     seqs [Group 1 word1, space1, Group 2 (alts [''and'', ''or'']), space1, Group 3 word1]"

text \<open>\<open>^(well|so|now|then|actually|basically|essentially|however|meanwhile|furthermore|therefore|moreover)\s+\<close>\<close>
definition re_introductory :: regex where
  "re_introductory =
     seqs [Bol,
           Group 1 (alts [''well'', ''so'', ''now'', ''then'', ''actually'', ''basically'',
                          ''essentially'', ''however'', ''meanwhile'', ''furthermore'',
                          ''therefore'', ''moreover'']),
           space1]"

text \<open>\<open>(?<!,)\s+(but|yet|so)\s+(?=\w{3,})\<close>\<close>
definition re_contrast :: regex where
  "re_contrast =
     seqs [NotBehind CHR '','', space1, Group 1 (alts [''but'', ''yet'', ''so'']), space1,
           Ahead (seqs [Chr CWord, Chr CWord, Chr CWord, Star (Chr CWord)])]"

text \<open>\<open>\b(however|therefore|meanwhile|furthermore|moreover|consequently|additionally|finally)\b\<close>\<close>
definition re_transition :: regex where
  "re_transition =
     seqs [WordB,
           Group 1 (alts [''however'', ''therefore'', ''meanwhile'', ''furthermore'', ''moreover'',
                          ''consequently'', ''additionally'', ''finally'']),
           WordB]"

text \<open>\<open>\b(important|note|remember|please|understand)\b\<close>\<close>
definition re_emphasis :: regex where
  "re_emphasis =
     seqs [WordB, Group 1 (alts [''important'', ''note'', ''remember'', ''please'', ''understand'']),
           WordB]"

text \<open>\<open>[.!?]$\<close>\<close>
definition re_terminated :: regex where
  "re_terminated = seqs [Chr (COneOf ''.!?''), Eol]"

text \<open>\<open>\b(what|when|where|why|how|who|is|are|do|does|did|can|could|would|will|should)\b\<close>\<close>
definition re_question :: regex where
  "re_question =
     seqs [WordB,
           Group 1 (alts [''what'', ''when'', ''where'', ''why'', ''how'', ''who'', ''is'', ''are'',
                          ''do'', ''does'', ''did'', ''can'', ''could'', ''would'', ''will'',
                          ''should'']),
           WordB]"

text \<open>\<open>\b(wow|great|amazing|excellent|fantastic|oh|ah|yes|no)\b\<close>\<close>
definition re_exclamation :: regex where
  "re_exclamation =
     seqs [WordB,
           Group 1 (alts [''wow'', ''great'', ''amazing'', ''excellent'', ''fantastic'', ''oh'',
                          ''ah'', ''yes'', ''no'']),
           WordB]"

text \<open>\<open>^([^:]+):\s*(.+)$\<close> with \<open>re.DOTALL\<close>\<close>
definition re_speaker_line :: regex where
  "re_speaker_line =
     seqs [Bol, Group 1 (many1 (Chr (CNotChar CHR '':''))), Chr (CChar CHR '':''),
           Star (Chr CSpace), Group 2 (many1 (Chr CAny)), Eol]"

text \<open>\<open>Speaker\s*(\d+)\<close> and \<open>User\s*(\d+)\<close>\<close>
definition re_speaker_number :: regex where
  "re_speaker_number = seqs [lit ''Speaker'', Star (Chr CSpace), Group 1 (many1 (Chr CDigit))]"
definition re_user_number :: regex where
  "re_user_number = seqs [lit ''User'', Star (Chr CSpace), Group 1 (many1 (Chr CDigit))]"

section \<open>The formatter\<close>

definition add_strategic_pauses :: "string \<Rightarrow> string" where
  "add_strategic_pauses text =
     (let text = re_sub re_transition True [Ref 1, Text '' --''] text;
          text = re_sub re_emphasis True [Text ''-- '', Ref 1] text
      in text)"

text \<open>The four substitutions of \<open>add_natural_commas\<close>, in the order of the source.\<close>

definition comma_direct_address :: "string \<Rightarrow> string" where
  "comma_direct_address text = re_sub re_direct_address True [Ref 1, Text '', '', Ref 2] text"

definition comma_conjunction :: "string \<Rightarrow> string" where
  "comma_conjunction text =
     re_sub re_conjunction False [Ref 1, Text '', '', Ref 2, Text '' '', Ref 3] text"

definition comma_introductory :: "string \<Rightarrow> string" where
  "comma_introductory text = re_sub re_introductory True [Ref 1, Text '', ''] text"

definition comma_contrast :: "string \<Rightarrow> string" where
  "comma_contrast text = re_sub re_contrast False [Text '', '', Ref 1, Text '' ''] text"

definition add_natural_commas :: "string \<Rightarrow> string" where
  "add_natural_commas text =
     (let text = comma_direct_address text;
          text = comma_conjunction text;
          text = comma_introductory text;
          text = comma_contrast text
      in text)"

definition end_sentence :: "string \<Rightarrow> string" where
  "end_sentence sentence =
     (if \<not> re_search re_terminated False sentence
      then (if re_search re_question False (py_lower sentence) then sentence @ ''?''
            else if re_search re_exclamation False (py_lower sentence) then sentence @ ''!''
            else sentence @ ''.'')
      else sentence)"

fun format_sentences :: "string list \<Rightarrow> string list" where
  "format_sentences [] = []"
| "format_sentences (s # ss) =
     (let sentence = py_strip s
      in if sentence = [] then format_sentences ss
         else end_sentence (add_natural_commas sentence) # format_sentences ss)"

definition format_speech_text :: "string \<Rightarrow> string" where
  "format_speech_text text =
     (if py_strip text = [] then text
      else add_strategic_pauses (py_join '' '' (format_sentences (split_sentences text))))"

definition format_speaker_name :: "string \<Rightarrow> string" where
  "format_speaker_name speaker_name =
     (let speaker_name = re_sub re_speaker_number True [Text ''Speaker '', Ref 1] speaker_name;
          speaker_name = re_sub re_user_number True [Text ''User '', Ref 1] speaker_name
      in speaker_name)"

fun enhance_paragraphs :: "string list \<Rightarrow> string list" where
  "enhance_paragraphs [] = []"
| "enhance_paragraphs (paragraph # ps) =
     (if py_strip paragraph = [] then enhance_paragraphs ps
      else (case re_match re_speaker_line False (py_strip paragraph) of
              Some speaker_match \<Rightarrow>
                (let speaker_name = py_strip (group speaker_match 1);
                     speech_text = py_strip (group speaker_match 2)
                 in (format_speaker_name speaker_name @ '': '' @ format_speech_text speech_text)
                    # enhance_paragraphs ps)
            | None \<Rightarrow> format_speech_text (py_strip paragraph) # enhance_paragraphs ps))"

definition enhance_text_for_speech :: "string \<Rightarrow> string" where
  "enhance_text_for_speech text =
     py_join [CHR 0x0A, CHR 0x0A] (enhance_paragraphs (split_paragraphs [] text))"



section \<open>json.loads\<close>

text \<open>
  The decoder of \<open>json.loads\<close> with its default arguments, on strings of code points below
  256. What the embedding does not compute is reported as \<open>OutsideModel\<close> and never as a
  result of the program: the text that \<open>str\<close> gives for a float, and an escape \<open>\u\<close> of a
  code point from 256 on. The recursion limit of the interpreter and its limit on the digits
  of an integer are not part of the model. The recursion over nested values runs on fuel that
  the length of the input bounds.
\<close>

datatype py_exception = JSONDecodeError | TypeError | AttributeError | OutsideModel

datatype json =
    JNull
  | JBool bool
  | JInt int
  | JFloat string
  | JStr string
  | JArr "json list"
  | JObj "(string \<times> json) list"

definition is_json_ws :: "char \<Rightarrow> bool" where
  "is_json_ws c = (c = CHR '' '' \<or> c = CHR 0x09 \<or> c = CHR 0x0A \<or> c = CHR 0x0D)"

fun skip_ws :: "string \<Rightarrow> string" where
  "skip_ws [] = []"
| "skip_ws (c # cs) = (if is_json_ws c then skip_ws cs else c # cs)"

definition hex_digit :: "char \<Rightarrow> nat option" where
  "hex_digit c =
     (if in_range 48 57 c then Some (of_char c - 48)
      else if in_range 65 70 c then Some (of_char c - 55)
      else if in_range 97 102 c then Some (of_char c - 87)
      else None)"

definition hex4 :: "char \<Rightarrow> char \<Rightarrow> char \<Rightarrow> char \<Rightarrow> nat option" where
  "hex4 a b c d =
     (case (hex_digit a, hex_digit b, hex_digit c, hex_digit d) of
        (Some x, Some y, Some z, Some w) \<Rightarrow> Some (((x * 16 + y) * 16 + z) * 16 + w)
      | _ \<Rightarrow> None)"

definition unescape :: "char \<Rightarrow> char option" where
  "unescape e =
     (if e = CHR 0x22 then Some (CHR 0x22)
      else if e = CHR 0x5C then Some (CHR 0x5C)
      else if e = CHR ''/'' then Some (CHR ''/'')
      else if e = CHR ''b'' then Some (CHR 0x08)
      else if e = CHR ''f'' then Some (CHR 0x0C)
      else if e = CHR ''n'' then Some (CHR 0x0A)
      else if e = CHR ''r'' then Some (CHR 0x0D)
      else if e = CHR ''t'' then Some (CHR 0x09)
      else None)"

fun scan_string :: "string \<Rightarrow> string \<Rightarrow> py_exception + (string \<times> string)" where
  "scan_string acc [] = Inl JSONDecodeError"
| "scan_string acc (c # cs) =
     (if c = CHR 0x22 then Inr (acc, cs)
      else if c = CHR 0x5C then
        (case cs of
           [] \<Rightarrow> Inl JSONDecodeError
         | e # es \<Rightarrow>
             if e = CHR ''u'' then
               (case es of
                  h1 # h2 # h3 # h4 # es' \<Rightarrow>
                    (case hex4 h1 h2 h3 h4 of
                       None \<Rightarrow> Inl JSONDecodeError
                     | Some n \<Rightarrow>
                         if n < 256 then scan_string (acc @ [char_of n]) es'
                         else Inl OutsideModel)
                | _ \<Rightarrow> Inl JSONDecodeError)
             else (case unescape e of
                     None \<Rightarrow> Inl JSONDecodeError
                   | Some x \<Rightarrow> scan_string (acc @ [x]) es))
      else if (of_char c :: nat) < 32 then Inl JSONDecodeError
      else scan_string (acc @ [c]) cs)"

definition digits_value :: "string \<Rightarrow> nat" where
  "digits_value ds = foldl (\<lambda>n d. 10 * n + (of_char d - 48)) 0 ds"

definition scan_fraction :: "string \<Rightarrow> string \<times> string" where
  "scan_fraction s =
     (case s of
        p # d # r \<Rightarrow>
          if p = CHR ''.'' \<and> is_digit d
          then (p # d # takeWhile is_digit r, dropWhile is_digit r) else ([], s)
      | _ \<Rightarrow> ([], s))"

definition scan_exponent :: "string \<Rightarrow> string \<times> string" where
  "scan_exponent s =
     (case s of
        e # r \<Rightarrow>
          if e = CHR ''e'' \<or> e = CHR ''E'' then
            (let (sign, r') = (case r of
                                 g # t \<Rightarrow> if g = CHR ''+'' \<or> g = CHR ''-'' then ([g], t) else ([], r)
                               | [] \<Rightarrow> ([], r))
             in if r' \<noteq> [] \<and> is_digit (hd r')
                then (e # sign @ takeWhile is_digit r', dropWhile is_digit r') else ([], s))
          else ([], s)
      | [] \<Rightarrow> ([], s))"

definition scan_integer :: "string \<Rightarrow> (string \<times> string) option" where
  "scan_integer s =
     (case s of
        d # r \<Rightarrow>
          if d = CHR ''0'' then Some ([d], r)
          else if is_digit d then Some (d # takeWhile is_digit r, dropWhile is_digit r)
          else None
      | [] \<Rightarrow> None)"

definition scan_number :: "string \<Rightarrow> (json \<times> string) option" where
  "scan_number s =
     (let (neg, s1) = (case s of m # r \<Rightarrow> if m = CHR ''-'' then (True, r) else (False, s)
                                | [] \<Rightarrow> (False, s))
      in case scan_integer s1 of
           None \<Rightarrow> None
         | Some (ds, r1) \<Rightarrow>
             (let (frac, r2) = scan_fraction r1; (ex, r3) = scan_exponent r2
              in if frac = [] \<and> ex = []
                 then Some (JInt (if neg then - int (digits_value ds) else int (digits_value ds)), r3)
                 else Some (JFloat ((if neg then ''-'' else []) @ ds @ frac @ ex), r3)))"

definition literal_at :: "string \<Rightarrow> string \<Rightarrow> bool" where
  "literal_at w s = (take (length w) s = w)"

fun parse_value :: "nat \<Rightarrow> string \<Rightarrow> py_exception + (json \<times> string)"
  and parse_array :: "nat \<Rightarrow> json list \<Rightarrow> string \<Rightarrow> py_exception + (json \<times> string)"
  and parse_object :: "nat \<Rightarrow> (string \<times> json) list \<Rightarrow> string \<Rightarrow> py_exception + (json \<times> string)"
where
  "parse_value 0 s = Inl OutsideModel"
| "parse_value (Suc n) s =
     (case s of
        [] \<Rightarrow> Inl JSONDecodeError
      | c # cs \<Rightarrow>
          if c = CHR 0x22 then
            (case scan_string [] cs of Inl e \<Rightarrow> Inl e | Inr (str, r) \<Rightarrow> Inr (JStr str, r))
          else if c = CHR ''{'' then
            (case skip_ws cs of
               [] \<Rightarrow> Inl JSONDecodeError
             | d # r \<Rightarrow> if d = CHR ''}'' then Inr (JObj [], r) else parse_object n [] (d # r))
          else if c = CHR ''['' then
            (case skip_ws cs of
               [] \<Rightarrow> Inl JSONDecodeError
             | d # r \<Rightarrow> if d = CHR '']'' then Inr (JArr [], r) else parse_array n [] (d # r))
          else if literal_at ''null'' s then Inr (JNull, drop 4 s)
          else if literal_at ''true'' s then Inr (JBool True, drop 4 s)
          else if literal_at ''false'' s then Inr (JBool False, drop 5 s)
          else (case scan_number s of
                  Some v \<Rightarrow> Inr v
                | None \<Rightarrow>
                    if literal_at ''NaN'' s then Inr (JFloat ''NaN'', drop 3 s)
                    else if literal_at ''Infinity'' s then Inr (JFloat ''Infinity'', drop 8 s)
                    else if literal_at ''-Infinity'' s then Inr (JFloat ''-Infinity'', drop 9 s)
                    else Inl JSONDecodeError))"
| "parse_array 0 acc s = Inl OutsideModel"
| "parse_array (Suc n) acc s =
     (case parse_value n s of
        Inl e \<Rightarrow> Inl e
      | Inr (v, r) \<Rightarrow>
          (case skip_ws r of
             [] \<Rightarrow> Inl JSONDecodeError
           | d # r' \<Rightarrow>
               if d = CHR '']'' then Inr (JArr (acc @ [v]), r')
               else if d = CHR '','' then parse_array n (acc @ [v]) (skip_ws r')
               else Inl JSONDecodeError))"
| "parse_object 0 acc s = Inl OutsideModel"
| "parse_object (Suc n) acc s =
     (case s of
        [] \<Rightarrow> Inl JSONDecodeError
      | q # cs \<Rightarrow>
          if q \<noteq> CHR 0x22 then Inl JSONDecodeError
          else (case scan_string [] cs of
                  Inl e \<Rightarrow> Inl e
                | Inr (key, r) \<Rightarrow>
                    (case skip_ws r of
                       [] \<Rightarrow> Inl JSONDecodeError
                     | d # r1 \<Rightarrow>
                         if d \<noteq> CHR '':'' then Inl JSONDecodeError
                         else (case parse_value n (skip_ws r1) of
                                 Inl e \<Rightarrow> Inl e
                               | Inr (v, r2) \<Rightarrow>
                                   (case skip_ws r2 of
                                      [] \<Rightarrow> Inl JSONDecodeError
                                    | g # r3 \<Rightarrow>
                                        if g = CHR ''}'' then Inr (JObj (acc @ [(key, v)]), r3)
                                        else if g = CHR '',''
                                        then parse_object n (acc @ [(key, v)]) (skip_ws r3)
                                        else Inl JSONDecodeError)))))"

definition json_loads :: "string \<Rightarrow> py_exception + json" where
  "json_loads s =
     (case parse_value (Suc (Suc (length s + length s))) (skip_ws s) of
        Inl e \<Rightarrow> Inl e
      | Inr (v, r) \<Rightarrow> if skip_ws r = [] then Inr v else Inl JSONDecodeError)"

section \<open>format_transcript_to_text\<close>

definition dict_get :: "(string \<times> json) list \<Rightarrow> string \<Rightarrow> json \<Rightarrow> json" where
  "dict_get d k dflt = (case map_of (rev d) k of None \<Rightarrow> dflt | Some v \<Rightarrow> v)"

fun py_iter :: "json \<Rightarrow> py_exception + json list" where
  "py_iter (JArr xs) = Inr xs"
| "py_iter (JObj d) = Inr (map JStr (rev (remdups (rev (map fst d)))))"
| "py_iter (JStr s) = Inr (map (\<lambda>c. JStr [c]) s)"
| "py_iter v = Inl TypeError"

fun truthy :: "json \<Rightarrow> py_exception + bool" where
  "truthy JNull = Inr False"
| "truthy (JBool b) = Inr b"
| "truthy (JInt i) = Inr (i \<noteq> 0)"
| "truthy (JFloat x) = Inl OutsideModel"
| "truthy (JStr s) = Inr (s \<noteq> [])"
| "truthy (JArr xs) = Inr (xs \<noteq> [])"
| "truthy (JObj d) = Inr (d \<noteq> [])"

function decimal :: "nat \<Rightarrow> string" where
  "decimal n = (if n < 10 then [''0123456789'' ! n]
                else decimal (n div 10) @ [''0123456789'' ! (n mod 10)])"
  by pat_completeness auto
termination
  by (relation "measure id") auto

fun py_str :: "json \<Rightarrow> py_exception + string" where
  "py_str (JStr s) = Inr s"
| "py_str JNull = Inr ''None''"
| "py_str (JBool b) = Inr (if b then ''True'' else ''False'')"
| "py_str (JInt i) = Inr (if i < 0 then ''-'' @ decimal (nat (- i)) else decimal (nat i))"
| "py_str v = Inl OutsideModel"

fun transcript_loop :: "json list \<Rightarrow> string \<Rightarrow> py_exception + string" where
  "transcript_loop [] result = Inr result"
| "transcript_loop (item # items) result =
     (case item of
        JObj d \<Rightarrow>
          (let text = dict_get d ''text'' (JStr []);
               speaker = dict_get d ''speaker'' (JStr [])
           in case truthy speaker of
                Inl e \<Rightarrow> Inl e
              | Inr True \<Rightarrow>
                  (case py_str speaker of
                     Inl e \<Rightarrow> Inl e
                   | Inr sp \<Rightarrow>
                       (case py_str text of
                          Inl e \<Rightarrow> Inl e
                        | Inr tx \<Rightarrow>
                            transcript_loop items
                              (result @ sp @ '': '' @ tx @ [CHR 0x0A, CHR 0x0A])))
              | Inr False \<Rightarrow>
                  (case py_str text of
                     Inl e \<Rightarrow> Inl e
                   | Inr tx \<Rightarrow> transcript_loop items (result @ tx @ [CHR 0x0A, CHR 0x0A])))
      | _ \<Rightarrow> Inl AttributeError)"

definition format_transcript_to_text :: "string \<Rightarrow> py_exception + string" where
  "format_transcript_to_text transcripts_str =
     (case json_loads transcripts_str of
        Inl JSONDecodeError \<Rightarrow> Inr (enhance_text_for_speech (py_strip transcripts_str))
      | Inl e \<Rightarrow> Inl e
      | Inr transcripts \<Rightarrow>
          (case py_iter transcripts of
             Inl e \<Rightarrow> Inl e
           | Inr items \<Rightarrow>
               (case transcript_loop items [] of
                  Inl e \<Rightarrow> Inl e
                | Inr result \<Rightarrow> Inr (enhance_text_for_speech (py_strip result)))))"


text \<open>The transcripts used as examples below.\<close>

definition agent_transcript :: string where
  \<open>agent_transcript = ''[{"speaker":"Agent","text":"hello how are you"}]''\<close>

definition quoted_transcript :: string where
  \<open>quoted_transcript = ''"Good morning."''\<close>

text \<open>The unfoldings that evaluate the formatter on a given string.\<close>

named_theorems ev

declare is_space_def [ev] in_range_def [ev] is_digit_def [ev] is_word_char_def [ev]
  py_lower_char_def [ev] py_upper_char_def [ev] at_word_def [ev] next_char_def [ev]
  lit_def [ev] seqs_def [ev] alts_def [ev] many1_def [ev] group_def [ev] match_at_def [ev]
  re_sub_def [ev] re_search_def [ev] re_match_def [ev] space1_def [ev] word1_def [ev]
  re_direct_address_def [ev] re_conjunction_def [ev] re_introductory_def [ev]
  re_contrast_def [ev] re_transition_def [ev] re_emphasis_def [ev] re_terminated_def [ev]
  re_question_def [ev] re_exclamation_def [ev] re_speaker_line_def [ev]
  re_speaker_number_def [ev] re_user_number_def [ev] add_strategic_pauses_def [ev]
  comma_direct_address_def [ev] comma_conjunction_def [ev] comma_introductory_def [ev]
  comma_contrast_def [ev] add_natural_commas_def [ev] end_sentence_def [ev]
  format_speech_text_def [ev] format_speaker_name_def [ev] enhance_text_for_speech_def [ev]
  py_strip_def [ev] py_lower_def [ev] split_sentences_def [ev] is_terminal_def [ev]
  Let_def [ev]

named_theorems ev_json

declare is_json_ws_def [ev_json] hex_digit_def [ev_json] hex4_def [ev_json]
  unescape_def [ev_json] digits_value_def [ev_json] scan_fraction_def [ev_json]
  scan_exponent_def [ev_json] scan_integer_def [ev_json] scan_number_def [ev_json]
  literal_at_def [ev_json] json_loads_def [ev_json] dict_get_def [ev_json]
  format_transcript_to_text_def [ev_json] in_range_def [ev_json] is_digit_def [ev_json]
  Let_def [ev_json]

text \<open>A string with a character that is not whitespace.\<close>

definition has_text :: "string \<Rightarrow> bool" where
  "has_text s = list_ex (\<lambda>c. \<not> is_space c) s"

section \<open>Text prepared for speech\<close>















section \<open>Properties of merge_audio_chunks\<close>

lemma merge_loop_Suc: "merge_loop (Suc i) cs acc = acc @ concat (map (drop 44) cs)"
  by (induction cs arbitrary: i acc) auto

text \<open>
  Claim C2. \<open>merge_audio_chunks []\<close> is the empty byte string, \<open>merge_audio_chunks [x]\<close> is
  \<open>x\<close>, and for two or more segments the result is the first segment in full followed by
  every later segment without its first 44 bytes, in order; a later segment of at most 44
  bytes contributes nothing (dropping those segments first gives the same result). In
  particular \<open>merge_audio_chunks [a, b] = a @ drop 44 b\<close> when both are longer than 44.
\<close>

theorem merge_audio_chunks_spec:
  "merge_audio_chunks [] = [] \<and>
   merge_audio_chunks [x] = x \<and>
   (2 \<le> length segments \<longrightarrow>
      merge_audio_chunks segments = hd segments @ concat (map (drop 44) (tl segments)) \<and>
      merge_audio_chunks segments =
        hd segments @ concat (map (drop 44) (filter (\<lambda>s. 44 < length s) (tl segments)))) \<and>
   (44 < length a \<and> 44 < length b \<longrightarrow> merge_audio_chunks [a, b] = a @ drop 44 b)"
proof -
  have drop_short:
    "concat (map (drop 44) (filter (\<lambda>s. 44 < length s) ys)) = concat (map (drop 44) ys)"
    for ys :: "bytes list"
    by (induction ys) auto
  have many: "merge_audio_chunks (y # z # zs) = y @ concat (map (drop 44) (z # zs))" for y z zs
    unfolding merge_audio_chunks_def
    by (simp add: merge_loop_Suc del: merge_loop.simps(2)) (simp add: merge_loop_Suc)
  show ?thesis
  proof (intro conjI impI)
    show "merge_audio_chunks [] = []" by (simp add: merge_audio_chunks_def)
    show "merge_audio_chunks [x] = x" by (simp add: merge_audio_chunks_def)
    show "merge_audio_chunks [a, b] = a @ drop 44 b" using many [of a b "[]"] by simp
  next
    assume "2 \<le> length segments"
    then obtain y z zs where s: "segments = y # z # zs"
      by (cases segments; cases "tl segments") auto
    show "merge_audio_chunks segments = hd segments @ concat (map (drop 44) (tl segments))"
      unfolding s using many [of y z zs] by simp
    then show "merge_audio_chunks segments =
        hd segments @ concat (map (drop 44) (filter (\<lambda>s. 44 < length s) (tl segments)))"
      by (simp only: drop_short)
  qed
qed

theorem merge_audio_chunks_spec_witness:
  "merge_audio_chunks [replicate 45 1, [7, 8], replicate 46 2] = replicate 45 1 @ replicate 2 2 \<and>
   merge_audio_chunks [replicate 45 1, replicate 46 2] = replicate 45 1 @ replicate 2 2"
  using merge_audio_chunks_spec
    [where segments = "[replicate 45 1, [7, 8], replicate 46 2]"
       and a = "replicate 45 1" and b = "replicate 46 2"]
  by simp

section \<open>Properties of the conversion loop\<close>

lemma audio_of_append: "audio_of (xs @ ys) = audio_of xs @ audio_of ys"
  by (induction xs rule: audio_of.induct) auto

lemma failed_chunks_append: "failed_chunks (xs @ ys) = failed_chunks xs @ failed_chunks ys"
  by (induction xs rule: failed_chunks.induct) auto

lemma length_replies: "length (replies post rs v) = length rs"
  by (induction rs arbitrary: v) (auto split: prod.splits)

lemma synth_loop_spec:
  "synth_loop post vm key n i chunks (c, w) = (c', w') \<Longrightarrow>
   \<exists>k \<le> length chunks.
     posted c' = posted c @ map (speak_request vm key) (take (calls_made k chunks) chunks) \<and>
     audio_chunks c' = audio_chunks c @
       map content_of (take k (replies post (map (speak_request vm key) chunks) w)) \<and>
     (\<forall>out \<in> set (take k (replies post (map (speak_request vm key) chunks) w)). succeeded out) \<and>
     (k < length chunks \<longrightarrow> \<not> succeeded (replies post (map (speak_request vm key) chunks) w ! k)) \<and>
     audio_of (shown c') = audio_of (shown c) \<and>
     failed_chunks (shown c') = failed_chunks (shown c) @ (if k < length chunks then [i + k + 1] else [])"
proof (induction chunks arbitrary: i c w)
  case Nil
  then show ?case by (simp add: calls_made_def)
next
  case (Cons chunk rest)
  let ?rq = "speak_request vm key chunk"
  obtain out w1 where p: "post ?rq w = (out, w1)" by (cases "post ?rq w")
  show ?case
  proof (cases "succeeded out")
    case False
    then have "c' = c\<lparr>posted := posted c @ [?rq],
                      shown := shown c @ [case out of Response s b t \<Rightarrow> ErrorApi (i + 1) s t
                                           | Raised e \<Rightarrow> ErrorCall (i + 1) e]\<rparr>"
      using Cons.prems p by (cases out) (auto simp: Let_def)
    then show ?thesis using False p
      by (intro exI [of _ 0])
         (cases out; simp add: calls_made_def audio_of_append failed_chunks_append)
  next
    case True
    then obtain content body where out: "out = Response 200 content body"
      by (cases out) auto
    let ?c1 = "c\<lparr>posted := posted c @ [?rq], audio_chunks := audio_chunks c @ [content],
                  shown := shown c @ [Progress (i + 1) n]\<rparr>"
    have "synth_loop post vm key n (Suc i) rest (?c1, w1) = (c', w')"
      using Cons.prems p out by (simp add: Let_def)
    from Cons.IH [OF this] obtain k where k: "k \<le> length rest"
      "posted c' = posted ?c1 @ map (speak_request vm key) (take (calls_made k rest) rest)"
      "audio_chunks c' = audio_chunks ?c1 @
         map content_of (take k (replies post (map (speak_request vm key) rest) w1))"
      "\<forall>out \<in> set (take k (replies post (map (speak_request vm key) rest) w1)). succeeded out"
      "k < length rest \<longrightarrow> \<not> succeeded (replies post (map (speak_request vm key) rest) w1 ! k)"
      "audio_of (shown c') = audio_of (shown ?c1)"
      "failed_chunks (shown c') =
         failed_chunks (shown ?c1) @ (if k < length rest then [Suc i + k + 1] else [])"
      by blast
    show ?thesis
      using k p out
      by (intro exI [of _ "Suc k"])
         (simp add: calls_made_def audio_of_append failed_chunks_append)
  qed
qed

text \<open>
  Claim C3. In every run of the conversion there is a number \<open>k\<close> of chunks that were
  synthesized before the loop ended. The requests posted are those of the first chunks, in
  chunk order and one per chunk: all of them when \<open>k\<close> is the number of chunks, the first
  \<open>k + 1\<close> otherwise, so no chunk after the failing one is posted. The first \<open>k\<close> outcomes
  succeeded and their contents are the collected segments. If every chunk succeeded the
  audio shown is the merge of the segments and no chunk error is shown; if chunk \<open>k\<close>
  (counted from 0) failed, no audio is shown, the one chunk error shown carries the
  number \<open>k + 1\<close>, and the run ends with the failure message.
\<close>

theorem synthesize_chunks_fail_fast:
  assumes "synthesize_chunks post voice_model api_key text_chunks w = (c, w')"
  shows "\<exists>k \<le> length text_chunks.
     posted c = map (speak_request voice_model api_key)
                    (take (calls_made k text_chunks) text_chunks) \<and>
     audio_chunks c = map content_of
        (take k (replies post (map (speak_request voice_model api_key) text_chunks) w)) \<and>
     (\<forall>out \<in> set (take k (replies post (map (speak_request voice_model api_key) text_chunks) w)).
        succeeded out) \<and>
     (k = length text_chunks \<longrightarrow>
        audio_of (shown c) =
          [merge_audio_chunks (audio_chunks c), merge_audio_chunks (audio_chunks c)] \<and>
        failed_chunks (shown c) = [] \<and> last (shown c) = Success) \<and>
     (k < length text_chunks \<longrightarrow>
        \<not> succeeded (replies post (map (speak_request voice_model api_key) text_chunks) w ! k) \<and>
        audio_of (shown c) = [] \<and> failed_chunks (shown c) = [k + 1] \<and>
        last (shown c) = ErrorFailedAll)"
proof -
  define c0 where "c0 = \<lparr> audio_chunks = [], posted = [],
     shown = (if length text_chunks > 1 then [Info (length text_chunks)] else []) \<rparr>"
  obtain c1 w1 where
    l: "synth_loop post voice_model api_key (length text_chunks) 0 text_chunks (c0, w) = (c1, w1)"
    by (cases "synth_loop post voice_model api_key (length text_chunks) 0 text_chunks (c0, w)")
  have z: "audio_of (shown c0) = []" "failed_chunks (shown c0) = []"
    "posted c0 = []" "audio_chunks c0 = []"
    by (simp_all add: c0_def)
  from synth_loop_spec [OF l] obtain k where k: "k \<le> length text_chunks"
     "posted c1 = map (speak_request voice_model api_key)
                      (take (calls_made k text_chunks) text_chunks)"
     "audio_chunks c1 = map content_of
        (take k (replies post (map (speak_request voice_model api_key) text_chunks) w))"
     "\<forall>out \<in> set (take k (replies post (map (speak_request voice_model api_key) text_chunks) w)).
        succeeded out"
     "k < length text_chunks \<longrightarrow>
        \<not> succeeded (replies post (map (speak_request voice_model api_key) text_chunks) w ! k)"
     "audio_of (shown c1) = []"
     "failed_chunks (shown c1) = (if k < length text_chunks then [0 + k + 1] else [])"
    unfolding z append_Nil by blast
  have la: "length (audio_chunks c1) = k"
    using k(1) by (simp add: k(3) length_replies)
  show ?thesis
  proof (cases "k = length text_chunks")
    case True
    then have "c = c1\<lparr>shown := shown c1 @ [Audio (merge_audio_chunks (audio_chunks c1)),
        Download (merge_audio_chunks (audio_chunks c1)), Success]\<rparr>"
      using assms l la by (simp add: synthesize_chunks_def Let_def c0_def)
    then show ?thesis using k True
      by (intro exI [of _ k]) (simp add: audio_of_append failed_chunks_append)
  next
    case False
    then have "c = c1\<lparr>shown := shown c1 @ [ErrorFailedAll]\<rparr>"
      using assms l la by (simp add: synthesize_chunks_def Let_def c0_def)
    then show ?thesis using k False
      by (intro exI [of _ k]) (simp add: audio_of_append failed_chunks_append)
  qed
qed

theorem synthesize_chunks_fail_fast_witness:
  "synthesize_chunks flaky_post ''aura-luna-en'' ''key'' [''One.'', ''Two.'', ''Three.''] 0 =
     (\<lparr> audio_chunks = [[0]],
        posted = [speak_request ''aura-luna-en'' ''key'' ''One.'',
                  speak_request ''aura-luna-en'' ''key'' ''Two.''],
        shown = [Info 3, Progress 1 3, ErrorCall 2 ''timeout'', ErrorFailedAll] \<rparr>, 2) \<and>
   audio_of [Info 3, Progress 1 3, ErrorCall 2 ''timeout'', ErrorFailedAll] = [] \<and>
   failed_chunks [Info 3, Progress 1 3, ErrorCall 2 ''timeout'', ErrorFailedAll] = [2]"
proof -
  have run:
    "synthesize_chunks flaky_post ''aura-luna-en'' ''key'' [''One.'', ''Two.'', ''Three.''] 0 =
     (\<lparr> audio_chunks = [[0]],
        posted = [speak_request ''aura-luna-en'' ''key'' ''One.'',
                  speak_request ''aura-luna-en'' ''key'' ''Two.''],
        shown = [Info 3, Progress 1 3, ErrorCall 2 ''timeout'', ErrorFailedAll] \<rparr>, 2)"
    by (simp add: synthesize_chunks_def flaky_post_def Let_def)
  from synthesize_chunks_fail_fast [OF run] show ?thesis
    using run by simp
qed

section \<open>Properties of chunk_text\<close>

text \<open>
  Claim C1 (the bound \<open>length chunk \<le> max_chars\<close> on every chunk) does not hold of the
  code: when the current chunk is non-empty, a word that does not fit becomes the next
  current chunk whole, however long it is, and is emitted untruncated. With
  \<open>max_chars = 5\<close> the second chunk below has 10 characters.
\<close>

theorem chunk_text_long_word_not_truncated:
  "chunk_text ''aa bbbbbbbbbb'' 5 = [''aa'', ''bbbbbbbbbb''] \<and>
   length (chunk_text ''aa bbbbbbbbbb'' 5 ! 1) = 10"
  by (simp add: chunk_text_def split_sentences_def py_split_def py_strip_def is_space_def
      is_terminal_def)



lemma is_space_blank [simp]: "is_space CHR '' ''"
  by (simp add: is_space_def)

lemma terminal_not_space: "is_terminal c \<Longrightarrow> \<not> is_space c"
  by (auto simp: is_terminal_def is_space_def)

lemma split_acc_space:
  "is_space c \<Longrightarrow> split_acc w (xs @ c # ys) = split_acc w xs @ split_acc [] ys"
  by (induction xs arbitrary: w) auto

lemma split_acc_word:
  "\<forall>c \<in> set w. \<not> is_space c \<Longrightarrow> split_acc u (w @ s) = split_acc (u @ w) s"
  by (induction w arbitrary: u) auto

lemma py_split_word:
  "w \<noteq> [] \<Longrightarrow> \<forall>c \<in> set w. \<not> is_space c \<Longrightarrow> py_split w = [w]"
  using split_acc_word [of w "[]" "[]"] by (simp add: py_split_def)

lemma split_acc_words:
  "list_all (\<lambda>c. \<not> is_space c) u \<Longrightarrow>
     list_all (\<lambda>x. x \<noteq> [] \<and> list_all (\<lambda>c. \<not> is_space c) x) (split_acc u s)"
  by (induction s arbitrary: u) simp_all

lemma py_split_words:
  "x \<in> set (py_split s) \<Longrightarrow> x \<noteq> [] \<and> (\<forall>c \<in> set x. \<not> is_space c)"
  using split_acc_words [of "[]" s] by (simp add: py_split_def list_all_iff)

lemma py_split_append:
  "is_space c \<Longrightarrow> py_split (xs @ c # ys) = py_split xs @ py_split ys"
  by (simp add: py_split_def split_acc_space)

lemma py_split_dropWhile: "py_split (dropWhile is_space s) = py_split s"
  by (induction s) (auto simp: py_split_def)

lemma py_split_skip_space: "py_split (skip_space s) = py_split s"
  by (induction s) (auto simp: py_split_def)

lemma py_split_trailing:
  "\<forall>c \<in> set ys. is_space c \<Longrightarrow> py_split (xs @ ys) = py_split xs"
proof (induction ys rule: rev_induct)
  case Nil
  then show ?case by simp
next
  case (snoc y ys)
  then have "py_split ((xs @ ys) @ y # []) = py_split (xs @ ys) @ py_split []"
    by (intro py_split_append) simp
  with snoc show ?case by (simp add: py_split_def)
qed

lemma py_split_strip: "py_split (py_strip s) = py_split s"
proof -
  let ?d = "dropWhile is_space s"
  have "?d = rev (dropWhile is_space (rev ?d)) @ rev (takeWhile is_space (rev ?d))"
    using takeWhile_dropWhile_id [of is_space "rev ?d"]
    by (metis rev_append rev_rev_ident)
  moreover have "\<forall>c \<in> set (rev (takeWhile is_space (rev ?d))). is_space c"
    by (auto dest: set_takeWhileD)
  ultimately have "py_split ?d = py_split (rev (dropWhile is_space (rev ?d)))"
    using py_split_trailing by metis
  then show ?thesis by (simp add: py_strip_def py_split_dropWhile)
qed

lemma py_split_sentences_acc:
  "concat (map py_split (sentences_acc cur rest)) = py_split (cur @ rest)"
proof (induction cur rest rule: sentences_acc.induct)
  case (1 cur)
  then show ?case by simp
next
  case (2 cur c cs)
  show ?case
  proof (cases "is_space c \<and> cur \<noteq> [] \<and> is_terminal (last cur)")
    case True
    then show ?thesis using 2(1) by (simp add: py_split_append py_split_skip_space)
  next
    case False
    then show ?thesis using 2(2) by auto
  qed
qed

lemma py_split_sentences: "concat (map py_split (split_sentences t)) = py_split t"
  by (simp add: split_sentences_def py_split_sentences_acc)

lemma py_split_Nil [simp]: "py_split [] = []"
  by (simp add: py_split_def)

lemma py_split_join: "py_split (py_join '' '' xs) = concat (map py_split xs)"
  by (induction "'' ''" xs rule: py_join.induct) (simp_all add: py_split_append)



lemma py_slice_to_all: "len w \<le> m \<Longrightarrow> py_slice_to m w = w"
  by (simp add: py_slice_to_def)

lemma words_loop_words:
  "list_all (\<lambda>w. w \<noteq> [] \<and> list_all (\<lambda>c. \<not> is_space c) w \<and> len w \<le> m) ws \<Longrightarrow>
   words_loop m ws (chunks, cur) = (chunks', cur') \<Longrightarrow>
   concat (map py_split chunks') @ py_split cur' = concat (map py_split chunks) @ py_split cur @ ws"
proof (induction ws arbitrary: chunks cur)
  case Nil
  then show ?case by simp
next
  case (Cons w ws)
  then have w: "py_split w = [w]" "py_slice_to m w = w"
    by (simp_all add: py_split_word list_all_iff py_slice_to_all)
  have rest: "list_all (\<lambda>w. w \<noteq> [] \<and> list_all (\<lambda>c. \<not> is_space c) w \<and> len w \<le> m) ws"
    using Cons.prems(1) by simp
  show ?case
    using Cons.prems(2) Cons.IH [OF rest]
    by (auto simp: w py_split_strip py_split_append split: if_splits)
qed

lemma sentences_loop_words:
  "list_all (\<lambda>s. list_all (\<lambda>w. len w \<le> m) (py_split s)) ss \<Longrightarrow>
   sentences_loop m ss (chunks, cur) = (chunks', cur') \<Longrightarrow>
   concat (map py_split chunks') @ py_split cur' =
     concat (map py_split chunks) @ py_split cur @ concat (map py_split ss)"
proof (induction ss arbitrary: chunks cur)
  case Nil
  then show ?case by simp
next
  case (Cons s ss)
  have rest: "list_all (\<lambda>s. list_all (\<lambda>w. len w \<le> m) (py_split s)) ss"
    using Cons.prems(1) by simp
  have ws: "list_all (\<lambda>w. w \<noteq> [] \<and> list_all (\<lambda>c. \<not> is_space c) w \<and> len w \<le> m) (py_split s)"
    using Cons.prems(1) py_split_words [of _ s] by (auto simp: list_all_iff)
  obtain c1 cur1 where wl: "words_loop m (py_split s) (chunks, cur) = (c1, cur1)"
    by (cases "words_loop m (py_split s) (chunks, cur)")
  note inner = words_loop_words [OF ws wl]
  show ?case
    using Cons.prems(2) Cons.IH [OF rest] inner wl
    by (auto simp: py_split_strip py_split_append split: if_splits)
qed

text \<open>
  Claim C4, as amended. When no word of the text is longer than \<open>max_chars\<close>, joining the
  chunks with single spaces gives a text with the same words in the same order as the
  input (the words are the maximal runs of non-whitespace characters). The whitespace
  between the words is not kept: a sentence split at word level is rebuilt with single
  spaces, and trailing whitespace is stripped.
\<close>

theorem chunk_text_keeps_words:
  assumes "\<forall>w \<in> set (py_split t). len w \<le> m"
  shows "py_split (py_join '' '' (chunk_text t m)) = py_split t"
proof (cases "len t \<le> m")
  case True
  then show ?thesis by (simp add: chunk_text_def)
next
  case False
  obtain chunks cur where l: "sentences_loop m (split_sentences t) ([], []) = (chunks, cur)"
    by (cases "sentences_loop m (split_sentences t) ([], [])")
  have "set (py_split s) \<subseteq> set (py_split t)" if "s \<in> set (split_sentences t)" for s
    using that py_split_sentences [of t, symmetric] by auto
  then have "list_all (\<lambda>s. list_all (\<lambda>w. len w \<le> m) (py_split s)) (split_sentences t)"
    using assms by (auto simp: list_all_iff)
  from sentences_loop_words [OF this l]
  have "concat (map py_split chunks) @ py_split cur = py_split t"
    by (simp add: py_split_sentences)
  then show ?thesis using False l
    by (cases "cur = []") (simp_all add: chunk_text_def py_split_join py_split_strip)
qed


lemma has_text_Cons: "has_text (c # cs) = (\<not> is_space c \<or> has_text cs)"
  by (simp add: has_text_def)

lemma has_text_append: "has_text (xs @ ys) = (has_text xs \<or> has_text ys)"
  by (simp add: has_text_def)

lemma has_text_Nil: "\<not> has_text []"
  by (simp add: has_text_def)

lemma has_text_rev: "has_text (rev xs) = has_text xs"
  by (simp add: has_text_def list_ex_iff)

lemma has_text_dropWhile: "has_text (dropWhile is_space s) = has_text s"
  by (induction s) (simp_all add: has_text_Cons)

lemma has_text_strip: "has_text (py_strip s) = has_text s"
  by (simp add: py_strip_def has_text_rev has_text_dropWhile)

lemma strip_nonempty: "has_text s \<Longrightarrow> py_strip s \<noteq> [] \<and> [] \<noteq> py_strip s"
  using has_text_strip [of s] has_text_Nil by auto

lemma word_has_text: "w \<noteq> [] \<Longrightarrow> list_all (\<lambda>c. \<not> is_space c) w \<Longrightarrow> has_text w"
  by (cases w) (simp_all add: has_text_Cons)

lemma py_slice_to_nonempty: "1 \<le> m \<Longrightarrow> w \<noteq> [] \<Longrightarrow> py_slice_to m w \<noteq> []"
  by (cases w) (auto simp: py_slice_to_def take_Cons')

lemma words_loop_nonempty:
  "1 \<le> m \<Longrightarrow> list_all (\<lambda>w. w \<noteq> [] \<and> list_all (\<lambda>c. \<not> is_space c) w) ws \<Longrightarrow>
   [] \<notin> set chunks \<Longrightarrow> cur = [] \<or> has_text cur \<Longrightarrow>
   words_loop m ws (chunks, cur) = (chunks', cur') \<Longrightarrow>
   [] \<notin> set chunks' \<and> (cur' = [] \<or> has_text cur')"
proof (induction ws arbitrary: chunks cur)
  case Nil
  then show ?case by simp
next
  case (Cons w ws)
  then have w: "w \<noteq> []" "has_text w" "py_slice_to m w \<noteq> []"
    by (simp_all add: word_has_text py_slice_to_nonempty)
  have rest: "list_all (\<lambda>w. w \<noteq> [] \<and> list_all (\<lambda>c. \<not> is_space c) w) ws"
    using Cons.prems(2) by simp
  show ?case
  proof (cases "len cur + len w + 1 > m")
    case False
    then have "words_loop m ws (chunks, (if cur \<noteq> [] then cur @ '' '' @ w else w)) = (chunks', cur')"
      using Cons.prems(5) by simp
    moreover have "(if cur \<noteq> [] then cur @ '' '' @ w else w) = [] \<or>
        has_text (if cur \<noteq> [] then cur @ '' '' @ w else w)"
      using w by (simp add: has_text_append has_text_Cons)
    ultimately show ?thesis
      using Cons.IH [OF Cons.prems(1) rest Cons.prems(3)] by blast
  next
    case over: True
    show ?thesis
    proof (cases "cur = []")
      case True
      then have "words_loop m ws (chunks @ [py_slice_to m w], cur) = (chunks', cur')"
        using Cons.prems(5) over by simp
      from Cons.IH [OF Cons.prems(1) rest _ _ this] w Cons.prems(3) True show ?thesis
        by simp
    next
      case False
      then have "words_loop m ws (chunks @ [py_strip cur], w) = (chunks', cur')"
        using Cons.prems(5) over by simp
      from Cons.IH [OF Cons.prems(1) rest _ _ this] w Cons.prems(3,4) False show ?thesis
        by (simp add: strip_nonempty)
    qed
  qed
qed

lemma sentences_loop_nonempty:
  "1 \<le> m \<Longrightarrow> list_all (\<lambda>s. s = [] \<or> has_text s) ss \<Longrightarrow>
   [] \<notin> set chunks \<Longrightarrow> cur = [] \<or> has_text cur \<Longrightarrow>
   sentences_loop m ss (chunks, cur) = (chunks', cur') \<Longrightarrow>
   [] \<notin> set chunks' \<and> (cur' = [] \<or> has_text cur')"
proof (induction ss arbitrary: chunks cur)
  case Nil
  then show ?case by simp
next
  case (Cons s ss)
  have s: "s = [] \<or> has_text s" and rest: "list_all (\<lambda>s. s = [] \<or> has_text s) ss"
    using Cons.prems(2) by simp_all
  show ?case
  proof (cases "len cur + len s + 1 > m")
    case False
    then have "sentences_loop m ss (chunks, (if cur \<noteq> [] then cur @ '' '' @ s else s)) = (chunks', cur')"
      using Cons.prems(5) by simp
    moreover have "(if cur \<noteq> [] then cur @ '' '' @ s else s) = [] \<or>
        has_text (if cur \<noteq> [] then cur @ '' '' @ s else s)"
      using s Cons.prems(4) by (auto simp: has_text_append has_text_Cons)
    ultimately show ?thesis
      using Cons.IH [OF Cons.prems(1) rest Cons.prems(3)] by blast
  next
    case over: True
    show ?thesis
    proof (cases "cur = []")
      case True
      obtain c1 cur1 where wl: "words_loop m (py_split s) (chunks, cur) = (c1, cur1)"
        by (cases "words_loop m (py_split s) (chunks, cur)")
      have ws: "list_all (\<lambda>w. w \<noteq> [] \<and> list_all (\<lambda>c. \<not> is_space c) w) (py_split s)"
        using py_split_words [of _ s] by (auto simp: list_all_iff)
      from words_loop_nonempty [OF Cons.prems(1) ws Cons.prems(3,4) wl]
      have inner: "[] \<notin> set c1" "cur1 = [] \<or> has_text cur1" by simp_all
      have "sentences_loop m ss (c1, cur1) = (chunks', cur')"
        using Cons.prems(5) over True wl by simp
      from Cons.IH [OF Cons.prems(1) rest inner this] show ?thesis .
    next
      case False
      then have "sentences_loop m ss (chunks @ [py_strip cur], s) = (chunks', cur')"
        using Cons.prems(5) over by simp
      from Cons.IH [OF Cons.prems(1) rest _ s this] Cons.prems(3,4) False show ?thesis
        by (simp add: strip_nonempty)
    qed
  qed
qed

lemma skip_space_Cons: "skip_space cs = d # ds \<Longrightarrow> \<not> is_space d \<and> length ds < length cs"
  by (induction cs) (auto split: if_splits)

lemma sentences_acc_text:
  "has_text cur \<Longrightarrow> list_all (\<lambda>s. s = [] \<or> has_text s) (sentences_acc cur rest)"
proof (induction "length rest" arbitrary: cur rest rule: less_induct)
  case less
  show ?case
  proof (cases rest)
    case Nil
    then show ?thesis using less.prems by simp
  next
    case (Cons c cs)
    show ?thesis
    proof (cases "is_space c \<and> cur \<noteq> [] \<and> is_terminal (last cur)")
      case False
      then have "sentences_acc cur (c # cs) = sentences_acc (cur @ [c]) cs"
        by auto
      moreover have "list_all (\<lambda>s. s = [] \<or> has_text s) (sentences_acc (cur @ [c]) cs)"
        using less.prems Cons by (intro less.hyps) (simp_all add: has_text_append)
      ultimately show ?thesis using Cons by simp
    next
      case True
      have "list_all (\<lambda>s. s = [] \<or> has_text s) (sentences_acc [] (skip_space cs))"
      proof (cases "skip_space cs")
        case Nil
        then show ?thesis by simp
      next
        case (Cons d ds)
        from skip_space_Cons [OF this] have d: "\<not> is_space d" "length ds < length cs"
          by simp_all
        have "sentences_acc [] (d # ds) = sentences_acc [d] ds" by simp
        moreover have "list_all (\<lambda>s. s = [] \<or> has_text s) (sentences_acc [d] ds)"
          using d \<open>rest = c # cs\<close> by (intro less.hyps) (simp_all add: has_text_Cons)
        ultimately show ?thesis using Cons by simp
      qed
      then show ?thesis using True less.prems Cons by simp
    qed
  qed
qed

lemma sentences_acc_blank:
  "list_all is_space (cur @ rest) \<Longrightarrow> sentences_acc cur rest = [cur @ rest]"
proof (induction rest arbitrary: cur)
  case Nil
  then show ?case by simp
next
  case (Cons c cs)
  have "\<not> (cur \<noteq> [] \<and> is_terminal (last cur))"
    using Cons.prems terminal_not_space [of "last cur"] by (auto simp: list_all_iff)
  then have "sentences_acc cur (c # cs) = sentences_acc (cur @ [c]) cs"
    by auto
  then show ?case using Cons.IH [of "cur @ [c]"] Cons.prems by simp
qed

lemma sentences_acc_leading:
  "list_all is_space cur \<Longrightarrow> has_text rest \<Longrightarrow>
     list_all (\<lambda>s. s = [] \<or> has_text s) (sentences_acc cur rest)"
proof (induction rest arbitrary: cur)
  case Nil
  then show ?case by (simp add: has_text_Nil)
next
  case (Cons c cs)
  have "\<not> (cur \<noteq> [] \<and> is_terminal (last cur))"
    using Cons.prems(1) terminal_not_space [of "last cur"] by (auto simp: list_all_iff)
  then have step: "sentences_acc cur (c # cs) = sentences_acc (cur @ [c]) cs"
    by auto
  show ?case
  proof (cases "is_space c")
    case True
    then show ?thesis using Cons step by (simp add: has_text_Cons)
  next
    case False
    then have "has_text (cur @ [c])" by (simp add: has_text_append has_text_Cons)
    then show ?thesis using step sentences_acc_text by simp
  qed
qed

lemma split_sentences_text:
  "has_text t \<Longrightarrow> list_all (\<lambda>s. s = [] \<or> has_text s) (split_sentences t)"
  by (simp add: split_sentences_def sentences_acc_leading)

lemma blank_or_text: "list_all is_space t \<or> has_text t"
  by (auto simp: has_text_def list_all_iff list_ex_iff)

lemma py_split_blank: "list_all is_space t \<Longrightarrow> py_split t = []"
  using py_split_trailing [of t "[]"] by (simp add: list_all_iff)

text \<open>
  Claim C9, as amended. For a non-empty text and \<open>max_chars\<close> at least 1, no chunk
  returned by \<open>chunk_text\<close> is empty.
\<close>

theorem chunk_text_nonempty:
  assumes "t \<noteq> []" and "1 \<le> m"
  shows "[] \<notin> set (chunk_text t m)"
proof (cases "len t \<le> m")
  case True
  then show ?thesis using assms by (simp add: chunk_text_def)
next
  case long: False
  obtain chunks cur where l: "sentences_loop m (split_sentences t) ([], []) = (chunks, cur)"
    by (cases "sentences_loop m (split_sentences t) ([], [])")
  have "[] \<notin> set chunks \<and> (cur = [] \<or> has_text cur)"
  proof (cases "has_text t")
    case True
    from sentences_loop_nonempty [OF assms(2) split_sentences_text [OF True] _ _ l]
    show ?thesis by simp
  next
    case False
    then have b: "list_all is_space t" using blank_or_text by blast
    then have "split_sentences t = [t]"
      using sentences_acc_blank [of "[]" t] by (simp add: split_sentences_def)
    then show ?thesis using l long b by (simp add: py_split_blank)
  qed
  then show ?thesis using l long
    by (auto simp: chunk_text_def strip_nonempty)
qed


theorem chunk_text_nonempty_witness:
  "''aa bbbbbbbbbb'' \<noteq> [] \<and> (1::int) \<le> 5 \<and> [] \<notin> set (chunk_text ''aa bbbbbbbbbb'' 5)"
  using chunk_text_nonempty [of "''aa bbbbbbbbbb''" 5] by simp

text \<open>The claim as stated fails on the empty text, which is returned as the one chunk, and
  for \<open>max_chars = 0\<close>, where a word is truncated to nothing.\<close>

theorem chunk_text_empty_chunk:
  "chunk_text [] 1800 = [[]] \<and> chunk_text ''a'' 0 = [[]]"
  by (simp add: chunk_text_def split_sentences_def py_split_def py_strip_def py_slice_to_def
      is_space_def is_terminal_def)

theorem chunk_text_keeps_words_witness:
  "py_split ''One two.  Three  four five'' = [''One'', ''two.'', ''Three'', ''four'', ''five''] \<and>
   py_split (py_join '' '' (chunk_text ''One two.  Three  four five'' 10)) =
     py_split ''One two.  Three  four five''"
proof -
  have w: "py_split ''One two.  Three  four five'' = [''One'', ''two.'', ''Three'', ''four'', ''five'']"
    by (simp add: py_split_def is_space_def)
  have "\<forall>w \<in> set (py_split ''One two.  Three  four five''). len w \<le> 10"
    unfolding w by simp
  from chunk_text_keeps_words [OF this] w show ?thesis by simp
qed

text \<open>The claim as stated fails where a sentence is split at word level: no word of the
  text below is longer than \<open>max_chars = 5\<close>, yet the sentence that the joined chunks
  give is not the sentence of the text (a double space has become a single one).\<close>

theorem chunk_text_sentence_not_reproduced:
  "py_split ''aa  bb cc'' = [''aa'', ''bb'', ''cc''] \<and>
   chunk_text ''aa  bb cc'' 5 = [''aa bb'', ''cc''] \<and>
   split_sentences (py_join '' '' (chunk_text ''aa  bb cc'' 5)) = [''aa bb cc''] \<and>
   split_sentences ''aa  bb cc'' = [''aa  bb cc'']"
  by (simp add: chunk_text_def split_sentences_def py_split_def py_strip_def is_space_def
      is_terminal_def)


section \<open>Properties of the comma rules\<close>













subsection \<open>The match that is found first\<close>













subsection \<open>Where the conjunction rules insert a comma\<close>
















section \<open>Properties of format_transcript_to_text\<close>

text \<open>
  Claim C5 (every input returns normally, with the plain-text fallback for whatever is not
  structured dialogue) does not hold of the code: only \<open>json.JSONDecodeError\<close> is caught, so
  an input that is valid JSON but not a list of objects raises. A quoted sentence decodes
  to a string, whose characters have no \<open>get\<close>; a number decodes to an integer, which is
  not iterable.
\<close>

theorem valid_json_of_wrong_shape_raises:
  "format_transcript_to_text quoted_transcript = Inl AttributeError \<and>
   format_transcript_to_text ''123'' = Inl TypeError"
  by (simp add: ev_json quoted_transcript_def)

lemma agent_formatted:
  "format_transcript_to_text agent_transcript = Inr ''Agent: hello, how are you?''"
  by (simp add: ev ev_json agent_transcript_def)

text \<open>
  Claim C6, as amended. For the transcript \<open>[{"speaker":"Agent","text":"hello how are you"}]\<close>
  the formatter returns the paragraph \<open>Agent: hello, how are you?\<close>: a comma after the
  greeting word and a question mark at the end, the greeting left in lower case.
\<close>

theorem agent_transcript_formatted:
  "format_transcript_to_text agent_transcript = Inr ''Agent: hello, how are you?''"
  by (rule agent_formatted)

text \<open>The claim as stated fails: nothing in the formatter capitalises a word.\<close>

theorem agent_greeting_not_capitalised:
  "format_transcript_to_text agent_transcript \<noteq> Inr ''Agent: Hello, how are you?''"
  by (simp add: agent_formatted)

section \<open>Idempotence of enhance_text_for_speech\<close>

subsection \<open>Strings\<close>











subsection \<open>Substitutions that find nothing\<close>





subsection \<open>The speaker line\<close>

lemma speaker_pattern:
  "re_speaker_line =
      Seq Bol (Seq (Group 1 (many1 (Chr (CNotChar CHR '':''))))
        (Seq (Chr (CChar CHR '':'')) (Seq (Star (Chr CSpace))
          (Seq (Group 2 (many1 (Chr CAny))) (Seq Eol Eps)))))"
  by (simp add: re_speaker_line_def seqs_def)


lemma speaker_none_empty: "re_match re_speaker_line False [] = None"
  by (simp add: re_match_def match_at_def speaker_pattern many1_def)





subsection \<open>Sentences that are split and joined again\<close>











subsection \<open>Paragraphs that are split and joined again\<close>





subsection \<open>Text the formatter leaves alone\<close>












subsection \<open>Paragraphs the formatter leaves alone\<close>










subsection \<open>Idempotence of the enhancement on prepared text\<close>




subsection \<open>The claim\<close>





section \<open>Determinism\<close>



end
